theory Spec2Isabelle
  imports Main
begin

section \<open>Go values, types and outcomes\<close>

text \<open>
  The package builds SQL text from Go values by reflection. A Go value is modelled together
  with the part of its dynamic type that the code asks for: \<open>VNil\<close> is the nil interface
  (for which \<open>reflect.ValueOf\<close> gives the invalid Value), \<open>VNilPtr t\<close> a nil pointer of type
  \<open>*t\<close>, \<open>VRef v\<close> a non-nil pointer to \<open>v\<close>, \<open>VSlice t None\<close> the nil slice of type
  \<open>[]t\<close>, \<open>VMap\<close> a \<open>map[string]interface{}\<close> with its entries in the order in which the
  \<open>range\<close> statement of this call visits them, and \<open>VStruct n ts fs\<close> a value of the struct
  type named \<open>n\<close> with field types \<open>ts\<close> and field values \<open>fs\<close>.
  A panic is the outcome \<open>Panic\<close>; an \<open>error\<close> return is a value.
\<close>

type_synonym error = string

datatype 'a outcome = Panic string | Return 'a

datatype gotype =
    TInt | TString | TIface | TMap
  | TPtr gotype | TSlice gotype | TStruct string "gotype list"

datatype val =
    VNil | VInt int | VStr string
  | VMap "(string \<times> val) list"
  | VNilPtr gotype | VRef val
  | VSlice gotype "val list option"
  | VStruct string "gotype list" "val list"

text \<open>\<open>reflect.New(t).Elem()\<close>: the zero value of a type.\<close>

fun zero :: "gotype \<Rightarrow> val" where
  "zero TInt = VInt 0"
| "zero TString = VStr []"
| "zero TIface = VNil"
| "zero TMap = VMap []"
| "zero (TPtr t) = VNilPtr t"
| "zero (TSlice t) = VSlice t None"
| "zero (TStruct n ts) = VStruct n ts (map zero ts)"

text \<open>
  The loop \<open>for v.Kind() == reflect.Ptr && !v.IsNil() { v = v.Elem() }\<close> of \<open>getFields\<close>.
\<close>

fun deref :: "val \<Rightarrow> val" where
  "deref (VRef v) = deref v"
| "deref v = v"

section \<open>The collaborators\<close>

text \<open>
  \<open>fieldInfo\<close> is built by \<open>getFieldInfo\<close>; the code reads its \<open>names\<close> (the column names)
  and its \<open>indexes\<close> (the struct field index of each column). \<open>getFieldInfo\<close> is a parameter
  \<open>gfi\<close> of every operation below.
\<close>

record fieldInfo =
  names :: "string list"
  indexes :: "nat list"

type_synonym sqlResult = "int \<times> int"

text \<open>
  The interface \<open>sqlExecutor\<close>. \<open>Query\<close> answers with the rows of the result set, each row the
  list of its column values.
\<close>

record sqlExecutor =
  Exec :: "string \<Rightarrow> val list \<Rightarrow> error + sqlResult"
  Query :: "string \<Rightarrow> val list \<Rightarrow> error + val list list"

record executor =
  exe :: sqlExecutor
  typeToFieldInfo :: "gotype \<rightharpoonup> fieldInfo"

text \<open>
  What an operation does besides returning: the calls it makes on the log and on the
  \<open>sqlExecutor\<close>, in order, and the entries it stores in the cache \<open>typeToFieldInfo\<close>.
\<close>

datatype event =
    LogInfo string "val list"
  | ExecCall string "val list"
  | QueryCall string "val list"

record 'a run =
  events :: "event list"
  cache :: "gotype \<rightharpoonup> fieldInfo"
  outcome :: "'a outcome"

section \<open>Strings and buffers\<close>

text \<open>\<open>strings.Join\<close> and \<open>strings.Repeat\<close>.\<close>

fun Join :: "string list \<Rightarrow> string \<Rightarrow> string" where
  "Join [] sep = []"
| "Join [x] sep = x"
| "Join (x # y # ys) sep = x @ sep @ Join (y # ys) sep"

fun Repeat :: "string \<Rightarrow> nat \<Rightarrow> string" where
  "Repeat s 0 = []"
| "Repeat s (Suc n) = s @ Repeat s n"

text \<open>
  \<open>buf.Truncate(buf.Len() - 1)\<close>: drops the last byte of the buffer. At each of its calls the
  buffer already holds the opening keyword of the statement, so the length is positive and the
  call cannot panic.
\<close>

definition TruncateLast :: "string \<Rightarrow> string" where
  "TruncateLast buf = take (length buf - 1) buf"

section \<open>The type inspector\<close>

text \<open>\<open>v.Field(idx)\<close> for each index, in order; it panics when an index is out of range.\<close>

fun fieldsAt :: "val list \<Rightarrow> nat list \<Rightarrow> val list outcome" where
  "fieldsAt fs [] = Return []"
| "fieldsAt fs (idx # idxs) =
     (if idx < length fs
      then (case fieldsAt fs idxs of
              Panic m \<Rightarrow> Panic m
            | Return vs \<Rightarrow> Return (fs ! idx # vs))
      else Panic ''reflect: Field index out of range'')"

text \<open>The cache lookup: load the entry of the type, or compute and store it.\<close>

definition loadFieldInfo ::
  "(gotype \<Rightarrow> fieldInfo) \<Rightarrow> (gotype \<rightharpoonup> fieldInfo) \<Rightarrow> gotype \<Rightarrow> fieldInfo \<times> (gotype \<rightharpoonup> fieldInfo)" where
  "loadFieldInfo gfi c t =
     (case c t of
        Some info \<Rightarrow> (info, c)
      | None \<Rightarrow> (gfi t, c(t \<mapsto> gfi t)))"

fun getFields ::
  "(gotype \<Rightarrow> fieldInfo) \<Rightarrow> executor \<Rightarrow> val \<Rightarrow> (gotype \<rightharpoonup> fieldInfo) \<times> (string list \<times> val list) outcome" where
  "getFields gfi e VNil = (typeToFieldInfo e, Panic ''invalid'')"
| "getFields gfi e i =
     (case deref i of
        VStruct n ts fs \<Rightarrow>
          (let (info, c) = loadFieldInfo gfi (typeToFieldInfo e) (TStruct n ts) in
           (c, case fieldsAt fs (indexes info) of
                 Panic m \<Rightarrow> Panic m
               | Return values \<Rightarrow> Return (names info, values)))
      | _ \<Rightarrow> (typeToFieldInfo e, Panic ''not struct''))"

text \<open>
  \<open>getFieldValues\<close> allocates \<open>len(columns)\<close> values and stores the field values by position:
  a surplus field is an index out of range, a missing one leaves nil. The fields that
  \<open>getFieldInfo\<close> lists are exported ones, for which \<open>f.Interface()\<close> is the field's value.
\<close>

definition getFieldValues ::
  "(gotype \<Rightarrow> fieldInfo) \<Rightarrow> executor \<Rightarrow> val \<Rightarrow> (gotype \<rightharpoonup> fieldInfo) \<times> (string list \<times> val list) outcome" where
  "getFieldValues gfi e i =
     (case getFields gfi e i of
        (c, Panic m) \<Rightarrow> (c, Panic m)
      | (c, Return (columns, fieldvals)) \<Rightarrow>
          (if length fieldvals \<le> length columns
           then (c, Return (columns, fieldvals @ replicate (length columns - length fieldvals) VNil))
           else (c, Panic ''index out of range'')))"

text \<open>
  The head of \<open>Insert\<close>, \<open>Update\<close> and \<open>Upsert\<close>: a \<open>map[string]interface{}\<close> gives its keys
  and values in iteration order, anything else goes through the type inspector.
\<close>

fun columnsValues ::
  "(gotype \<Rightarrow> fieldInfo) \<Rightarrow> executor \<Rightarrow> val \<Rightarrow> (gotype \<rightharpoonup> fieldInfo) \<times> (string list \<times> val list) outcome" where
  "columnsValues gfi e (VMap m) = (typeToFieldInfo e, Return (map fst m, map snd m))"
| "columnsValues gfi e record = getFieldValues gfi e record"

section \<open>The query builder\<close>

definition insertQuery :: "string \<Rightarrow> string list \<Rightarrow> string" where
  "insertQuery table columns =
     TruncateLast (''insert into '' @ table @ ''('' @ Join columns '','' @ '') values (''
                   @ Repeat ''?,'' (length columns)) @ '')''"

definition Insert ::
  "(gotype \<Rightarrow> fieldInfo) \<Rightarrow> executor \<Rightarrow> string \<Rightarrow> val \<Rightarrow> (error + sqlResult) run" where
  "Insert gfi e table record =
     (case columnsValues gfi e record of
        (c, Panic m) \<Rightarrow> \<lparr>events = [], cache = c, outcome = Panic m\<rparr>
      | (c, Return (columns, values)) \<Rightarrow>
          (let query = insertQuery table columns in
           \<lparr>events = [LogInfo query values, ExecCall query values], cache = c,
            outcome = Return (Exec (exe e) query values)\<rparr>))"

definition updateQuery :: "string \<Rightarrow> string list \<Rightarrow> string \<Rightarrow> string" where
  "updateQuery table columns where =
     TruncateLast (''update '' @ table @ '' set '' @ concat (map (\<lambda>c. c @ '' = ?,'') columns))
     @ (if length where > 0 then '' where '' @ where else [])"

definition Update ::
  "(gotype \<Rightarrow> fieldInfo) \<Rightarrow> executor \<Rightarrow> string \<Rightarrow> val \<Rightarrow> string \<Rightarrow> val list \<Rightarrow> (error + sqlResult) run" where
  "Update gfi e table record where args =
     (case columnsValues gfi e record of
        (c, Panic m) \<Rightarrow> \<lparr>events = [], cache = c, outcome = Panic m\<rparr>
      | (c, Return (columns, values0)) \<Rightarrow>
          (let query = updateQuery table columns where;
               values = values0 @ args in
           \<lparr>events = [LogInfo query values, ExecCall query values], cache = c,
            outcome = Return (Exec (exe e) query values)\<rparr>))"

definition upsertQuery :: "string \<Rightarrow> string list \<Rightarrow> string" where
  "upsertQuery table columns =
     TruncateLast
       (TruncateLast (''insert into '' @ table @ ''('' @ Join columns '','' @ '') values (''
                      @ Repeat ''?,'' (length columns))
        @ '') on duplicate key set '' @ concat (map (\<lambda>c. c @ '' = ?,'') columns))"

definition Upsert ::
  "(gotype \<Rightarrow> fieldInfo) \<Rightarrow> executor \<Rightarrow> string \<Rightarrow> val \<Rightarrow> (error + sqlResult) run" where
  "Upsert gfi e table record =
     (case columnsValues gfi e record of
        (c, Panic m) \<Rightarrow> \<lparr>events = [], cache = c, outcome = Panic m\<rparr>
      | (c, Return (columns, values0)) \<Rightarrow>
          (let query = upsertQuery table columns;
               values = values0 @ values0 in
           \<lparr>events = [LogInfo query values, ExecCall query values], cache = c,
            outcome = Return (Exec (exe e) query values)\<rparr>))"

definition deleteQuery :: "string \<Rightarrow> string \<Rightarrow> string" where
  "deleteQuery table where =
     ''delete from '' @ table @ (if length where > 0 then '' where '' @ where else [])"

definition Delete ::
  "executor \<Rightarrow> string \<Rightarrow> string \<Rightarrow> val list \<Rightarrow> (error + sqlResult) run" where
  "Delete e table where args =
     (let query = deleteQuery table where in
      \<lparr>events = [LogInfo query args, ExecCall query args], cache = typeToFieldInfo e,
       outcome = Return (Exec (exe e) query args)\<rparr>)"

section \<open>Select\<close>

definition selectQuery :: "string \<Rightarrow> string list \<Rightarrow> string \<Rightarrow> string" where
  "selectQuery table columns where =
     ''select '' @ Join columns '','' @ '' from '' @ table
     @ (if length where > 0 then '' where '' @ where else [])"

text \<open>
  \<open>fields[i] = elem.Field(idx).Addr().Interface()\<close>: the scan destinations of a fresh element.
  A destination is the address of a field of the element, written as the index of that field;
  \<open>elem.Field\<close> panics when the index is out of range.
\<close>

fun fieldAddrs :: "val list \<Rightarrow> nat list \<Rightarrow> nat list outcome" where
  "fieldAddrs fs [] = Return []"
| "fieldAddrs fs (idx # idxs) =
     (if idx < length fs
      then (case fieldAddrs fs idxs of
              Panic m \<Rightarrow> Panic m
            | Return ds \<Rightarrow> Return (idx # ds))
      else Panic ''reflect: Field index out of range'')"

text \<open>
  \<open>rows.Scan(fields...)\<close> of \<open>database/sql\<close>: it refuses a destination count different from the
  column count of the row (its message is abridged here), and otherwise stores column \<open>i\<close>
  through destination \<open>i\<close>.
\<close>

definition Scan :: "val list \<Rightarrow> nat list \<Rightarrow> val list \<Rightarrow> error + val list" where
  "Scan row dests fs =
     (if length dests \<noteq> length row
      then Inl ''sql: wrong number of destination arguments in Scan''
      else Inr (fold (\<lambda>(d, x) fs. fs[d := x]) (zip dests row) fs))"

text \<open>\<open>reflect.Append\<close> on a slice that may be nil.\<close>

fun Append :: "val list option \<Rightarrow> val \<Rightarrow> val list option" where
  "Append None x = Some [x]"
| "Append (Some xs) x = Some (xs @ [x])"

text \<open>
  The body of the loop \<open>for rows.Next()\<close> of \<open>Select\<close>: a new element of the element type,
  its scan destinations, the scan, and the element (or the pointer to it) to append.
\<close>

definition scanRow ::
  "fieldInfo \<Rightarrow> string \<Rightarrow> gotype list \<Rightarrow> bool \<Rightarrow> val list \<Rightarrow> (error + val) outcome" where
  "scanRow fi n ts isPtr row =
     (case fieldAddrs (map zero ts) (indexes fi) of
        Panic m \<Rightarrow> Panic m
      | Return dests \<Rightarrow>
          (case Scan row dests (map zero ts) of
             Inl err \<Rightarrow> Return (Inl err)
           | Inr fs \<Rightarrow> Return (Inr (if isPtr then VRef (VStruct n ts fs) else VStruct n ts fs))))"

fun scanRows ::
  "fieldInfo \<Rightarrow> string \<Rightarrow> gotype list \<Rightarrow> bool \<Rightarrow> val list list \<Rightarrow> val list option
   \<Rightarrow> (error + val list option) outcome" where
  "scanRows fi n ts isPtr [] sliceValue = Return (Inr sliceValue)"
| "scanRows fi n ts isPtr (row # rows) sliceValue =
     (case scanRow fi n ts isPtr row of
        Panic m \<Rightarrow> Panic m
      | Return (Inl err) \<Rightarrow> Return (Inl err)
      | Return (Inr x) \<Rightarrow> scanRows fi n ts isPtr rows (Append sliceValue x))"

text \<open>
  \<open>Select\<close> returns the value of \<open>records\<close> after the call next to the error. The Value of
  \<open>reflect.ValueOf(records)\<close> is never settable, so the guard
  \<open>v.IsNil() && !v.CanSet()\<close> stops every nil pointer, and the later
  \<open>if v.IsNil() { v.Set(...) }\<close> is never reached. On an error of the query or of a scan the
  function returns before \<open>v.Elem().Set(sliceValue)\<close>, so \<open>records\<close> is unchanged. The
  deferred \<open>rows.Close()\<close> is left out.
\<close>

definition selectRows ::
  "(gotype \<Rightarrow> fieldInfo) \<Rightarrow> executor \<Rightarrow> string \<Rightarrow> val \<Rightarrow> string \<Rightarrow> val list
   \<Rightarrow> gotype \<Rightarrow> val list option \<Rightarrow> bool \<Rightarrow> string \<Rightarrow> gotype list \<Rightarrow> (val \<times> error option) run" where
  "selectRows gfi e table records where args et xs isPtr n ts =
     (let (fi, c) = loadFieldInfo gfi (typeToFieldInfo e) (TStruct n ts);
          query = selectQuery table (names fi) where;
          evs = [LogInfo query args, QueryCall query args] in
      case Query (exe e) query args of
        Inl err \<Rightarrow> \<lparr>events = evs, cache = c, outcome = Return (records, Some err)\<rparr>
      | Inr rows \<Rightarrow>
          (case scanRows fi n ts isPtr rows xs of
             Panic m \<Rightarrow> \<lparr>events = evs, cache = c, outcome = Panic m\<rparr>
           | Return (Inl err) \<Rightarrow> \<lparr>events = evs, cache = c, outcome = Return (records, Some err)\<rparr>
           | Return (Inr sliceValue) \<Rightarrow>
               \<lparr>events = evs, cache = c, outcome = Return (VRef (VSlice et sliceValue), None)\<rparr>))"

fun Select ::
  "(gotype \<Rightarrow> fieldInfo) \<Rightarrow> executor \<Rightarrow> string \<Rightarrow> val \<Rightarrow> string \<Rightarrow> val list
   \<Rightarrow> (val \<times> error option) run" where
  "Select gfi e table (VNilPtr t) where args =
     \<lparr>events = [], cache = typeToFieldInfo e, outcome = Panic ''cannot be set value''\<rparr>"
| "Select gfi e table (VRef (VSlice (TStruct n ts) xs)) where args =
     selectRows gfi e table (VRef (VSlice (TStruct n ts) xs)) where args (TStruct n ts) xs False n ts"
| "Select gfi e table (VRef (VSlice (TPtr (TStruct n ts)) xs)) where args =
     selectRows gfi e table (VRef (VSlice (TPtr (TStruct n ts)) xs)) where args
       (TPtr (TStruct n ts)) xs True n ts"
| "Select gfi e table (VRef (VSlice et xs)) where args =
     \<lparr>events = [], cache = typeToFieldInfo e,
      outcome = Panic ''slice element must be a struct or pointer to struct''\<rparr>"
| "Select gfi e table records where args =
     \<lparr>events = [], cache = typeToFieldInfo e, outcome = Panic ''must be a pointer to slice''\<rparr>"

text \<open>\<open>SelectOne\<close>: its body is \<open>return nil\<close>. \<open>ErrNoRows\<close> is the sentinel of \<open>db.go\<close>.\<close>

definition ErrNoRows :: error where
  "ErrNoRows = ''sql: no rows in result set''"

definition SelectOne ::
  "(gotype \<Rightarrow> fieldInfo) \<Rightarrow> executor \<Rightarrow> string \<Rightarrow> val \<Rightarrow> string \<Rightarrow> val list
   \<Rightarrow> (val \<times> error option) run" where
  "SelectOne gfi e table record where args =
     \<lparr>events = [], cache = typeToFieldInfo e, outcome = Return (record, None)\<rparr>"

section \<open>Batch operations of the database handle\<close>

text \<open>
  \<open>db.go\<close> runs a batch on the transaction handle that \<open>Begin\<close> returns. The handle is a
  pointer, nil when \<open>Begin\<close> failed. The database and the methods of the handle are a
  collaborator \<open>db\<close>: it answers a call, knowing the calls made before it, with an \<open>error\<close>
  (\<open>None\<close> is nil) or with a panic.
\<close>

datatype txptr = TxNil | TxPtr

datatype call =
    CallBegin
  | CallInsert txptr val
  | CallUpdate txptr val
  | CallSave txptr val
  | CallRollback txptr
  | CallCommit txptr

type_synonym database = "call list \<Rightarrow> call \<Rightarrow> error option outcome"

definition Begin :: "database \<Rightarrow> call list \<Rightarrow> call list \<times> (txptr \<times> error option) outcome" where
  "Begin db tr =
     (tr @ [CallBegin],
      case db tr CallBegin of
        Panic m \<Rightarrow> Panic m
      | Return (Some err) \<Rightarrow> Return (TxNil, Some err)
      | Return None \<Rightarrow> Return (TxPtr, None))"

text \<open>
  The loop over \<open>values\<close> and the final \<open>tx.Commit()\<close>, for the method \<open>tx.Insert\<close>,
  \<open>tx.Update\<close> or \<open>tx.Save\<close>. The error of \<open>tx.Rollback()\<close> is dropped.
\<close>

fun applyAll ::
  "database \<Rightarrow> (val \<Rightarrow> call) \<Rightarrow> txptr \<Rightarrow> val list \<Rightarrow> call list \<Rightarrow> call list \<times> error option outcome" where
  "applyAll db method tx [] tr = (tr @ [CallCommit tx], db tr (CallCommit tx))"
| "applyAll db method tx (v # values) tr =
     (case db tr (method v) of
        Panic m \<Rightarrow> (tr @ [method v], Panic m)
      | Return (Some err) \<Rightarrow>
          (case db (tr @ [method v]) (CallRollback tx) of
             Panic m \<Rightarrow> (tr @ [method v, CallRollback tx], Panic m)
           | Return r \<Rightarrow> (tr @ [method v, CallRollback tx], Return (Some err)))
      | Return None \<Rightarrow> applyAll db method tx values (tr @ [method v]))"

text \<open>
  In all three the \<open>err\<close> of \<open>Begin\<close> is never read: the loop overwrites it, and the final
  return is that of \<open>tx.Commit()\<close>.
\<close>

definition MultiInsert :: "database \<Rightarrow> val list \<Rightarrow> call list \<times> error option outcome" where
  "MultiInsert db values =
     (case Begin db [] of
        (tr, Panic m) \<Rightarrow> (tr, Panic m)
      | (tr, Return (tx, err)) \<Rightarrow> applyAll db (CallInsert tx) tx values tr)"

definition MultiUpdate :: "database \<Rightarrow> val list \<Rightarrow> call list \<times> error option outcome" where
  "MultiUpdate db values =
     (case Begin db [] of
        (tr, Panic m) \<Rightarrow> (tr, Panic m)
      | (tr, Return (tx, err)) \<Rightarrow> applyAll db (CallUpdate tx) tx values tr)"

definition MultiSave :: "database \<Rightarrow> val list \<Rightarrow> call list \<times> error option outcome" where
  "MultiSave db values =
     (case Begin db [] of
        (tr, Panic m) \<Rightarrow> (tr, Panic m)
      | (tr, Return (tx, err)) \<Rightarrow> applyAll db (CallSave tx) tx values tr)"

section \<open>Notions used in the statements\<close>

text \<open>
  The \<open>fieldInfo\<close> that the executor uses for a type: the cached entry, or else what
  \<open>getFieldInfo\<close> gives (and is then cached).
\<close>

definition fieldInfoOf :: "(gotype \<Rightarrow> fieldInfo) \<Rightarrow> executor \<Rightarrow> gotype \<Rightarrow> fieldInfo" where
  "fieldInfoOf gfi e t = fst (loadFieldInfo gfi (typeToFieldInfo e) t)"

definition isStruct :: "val \<Rightarrow> bool" where
  "isStruct v = (case v of VStruct n ts fs \<Rightarrow> True | _ \<Rightarrow> False)"

definition isMap :: "val \<Rightarrow> bool" where
  "isMap v = (case v of VMap m \<Rightarrow> True | _ \<Rightarrow> False)"

text \<open>A non-nil pointer to a slice of structs or of pointers to structs.\<close>

fun structSlicePtr :: "val \<Rightarrow> bool" where
  "structSlicePtr (VRef (VSlice (TStruct n ts) xs)) = True"
| "structSlicePtr (VRef (VSlice (TPtr (TStruct n ts)) xs)) = True"
| "structSlicePtr v = False"

definition faults :: "'a outcome \<Rightarrow> bool" where
  "faults r = (case r of Panic m \<Rightarrow> True | Return x \<Rightarrow> False)"

text \<open>The operation panicked and had made no call on the log or on the \<open>sqlExecutor\<close>.\<close>

definition faultsBeforeSQL :: "'a run \<Rightarrow> bool" where
  "faultsBeforeSQL r = (events r = [] \<and> faults (outcome r))"


text \<open>The elements of a slice; the nil slice has none.\<close>

fun sliceElems :: "val list option \<Rightarrow> val list" where
  "sliceElems None = []"
| "sliceElems (Some xs) = xs"

subsection \<open>A concrete setting\<close>

text \<open>
  The type \<open>User {ID int `db:"id"`; Name string `db:"name"`}\<close> with table \<open>users\<close>, an
  executor whose query answers two rows, and databases whose second record fails, where
  every call succeeds, and whose \<open>Begin\<close> fails.
\<close>

definition userType :: gotype where
  "userType = TStruct ''User'' [TInt, TString]"

definition userRecord :: "int \<Rightarrow> string \<Rightarrow> val" where
  "userRecord i s = VStruct ''User'' [TInt, TString] [VInt i, VStr s]"

definition userFieldInfo :: "gotype \<Rightarrow> fieldInfo" where
  "userFieldInfo t = \<lparr>names = [''id'', ''name''], indexes = [0, 1]\<rparr>"

definition twoRows :: executor where
  "twoRows =
     \<lparr>exe = \<lparr>Exec = (\<lambda>q a. Inr (0, 1)),
              Query = (\<lambda>q a. Inr [[VInt 1, VStr ''ann''], [VInt 2, VStr ''bob'']])\<rparr>,
      typeToFieldInfo = Map.empty\<rparr>"

definition secondFails :: database where
  "secondFails tr c = (if length tr = 2 then Return (Some ''duplicate key'') else Return None)"

definition allSucceed :: database where
  "allSucceed tr c = Return None"

definition beginFails :: database where
  "beginFails tr c =
     (case c of
        CallBegin \<Rightarrow> Return (Some ''connection refused'')
      | CallInsert TxNil v \<Rightarrow> Panic ''nil pointer dereference''
      | CallUpdate TxNil v \<Rightarrow> Panic ''nil pointer dereference''
      | CallSave TxNil v \<Rightarrow> Panic ''nil pointer dereference''
      | _ \<Rightarrow> Return None)"

section \<open>Auxiliary facts\<close>

subsection \<open>Buffers and query text\<close>

lemma TruncateLast_single: "TruncateLast [c] = []"
  by (simp add: TruncateLast_def)

lemma TruncateLast_Cons: "ys \<noteq> [] \<Longrightarrow> TruncateLast (x # ys) = x # TruncateLast ys"
  by (cases ys) (simp_all add: TruncateLast_def)

lemma TruncateLast_append: "ys \<noteq> [] \<Longrightarrow> TruncateLast (xs @ ys) = xs @ TruncateLast ys"
  by (induction xs) (simp_all add: TruncateLast_Cons)

lemmas TruncateLast_simps = TruncateLast_single TruncateLast_Cons TruncateLast_append

lemma Repeat_placeholders:
  "Repeat ''?,'' (Suc n) = Join (replicate (Suc n) ''?'') '','' @ '',''"
  by (induction n) simp_all

lemma assignments_Join:
  "columns \<noteq> [] \<Longrightarrow>
   concat (map (\<lambda>c. c @ '' = ?,'') columns) = Join (map (\<lambda>c. c @ '' = ?'') columns) '','' @ '',''"
proof (induction columns)
  case Nil
  then show ?case by simp
next
  case (Cons c cs)
  then show ?case by (cases cs) simp_all
qed

lemma placeholders_count: "count_list (Join (replicate n ''?'') '','') CHR ''?'' = n"
proof (induction n rule: less_induct)
  case (less n)
  show ?case
  proof (cases n)
    case 0
    then show ?thesis by simp
  next
    case (Suc m)
    show ?thesis
    proof (cases m)
      case 0
      with Suc show ?thesis by simp
    next
      case (Suc k)
      with \<open>n = Suc m\<close> less [of m] show ?thesis by simp
    qed
  qed
qed

lemma insertQuery_nonempty:
  assumes "columns \<noteq> []"
  shows "insertQuery table columns =
         ''insert into '' @ table @ ''('' @ Join columns '','' @ '') values (''
         @ Join (replicate (length columns) ''?'') '','' @ '')''"
proof -
  obtain k where k: "length columns = Suc k"
    using assms by (cases columns) auto
  show ?thesis
    unfolding insertQuery_def k Repeat_placeholders by (simp add: TruncateLast_simps)
qed

lemma updateQuery_form:
  "updateQuery table columns where =
     (if columns = [] then ''update '' @ table @ '' set''
      else ''update '' @ table @ '' set '' @ Join (map (\<lambda>c. c @ '' = ?'') columns) '','')
     @ (if where = [] then [] else '' where '' @ where)"
  by (simp add: updateQuery_def assignments_Join TruncateLast_simps)


subsection \<open>The type inspector\<close>

lemma fieldsAt_in_range:
  "\<forall>idx\<in>set idxs. idx < length fs \<Longrightarrow> fieldsAt fs idxs = Return (map ((!) fs) idxs)"
  by (induction idxs) simp_all

lemma fieldsAt_Return:
  "fieldsAt fs idxs = Return vs \<Longrightarrow> vs = map ((!) fs) idxs \<and> (\<forall>idx\<in>set idxs. idx < length fs)"
  by (induction idxs arbitrary: vs) (auto split: if_splits outcome.splits)

lemma getFields_struct:
  "deref i = VStruct n ts fs \<Longrightarrow>
   getFields gfi e i =
     (snd (loadFieldInfo gfi (typeToFieldInfo e) (TStruct n ts)),
      case fieldsAt fs (indexes (fieldInfoOf gfi e (TStruct n ts))) of
        Panic m \<Rightarrow> Panic m
      | Return values \<Rightarrow> Return (names (fieldInfoOf gfi e (TStruct n ts)), values))"
  unfolding fieldInfoOf_def by (cases i) (simp_all add: case_prod_beta)

lemma getFields_not_struct:
  "\<not> isStruct (deref i) \<Longrightarrow> \<exists>m. getFields gfi e i = (typeToFieldInfo e, Panic m)"
proof (cases i)
  case (VRef x)
  assume "\<not> isStruct (deref i)"
  with VRef show ?thesis
    by (cases "deref x") (simp_all add: isStruct_def)
qed (simp_all add: isStruct_def)

lemma columnsValues_struct:
  "deref i = VStruct n ts fs \<Longrightarrow> columnsValues gfi e i = getFieldValues gfi e i"
  by (cases i) simp_all

lemma columnsValues_typed:
  assumes "deref record = VStruct n ts fs"
    and "fi = fieldInfoOf gfi e (TStruct n ts)"
    and "length (indexes fi) = length (names fi)"
    and "\<forall>idx\<in>set (indexes fi). idx < length fs"
  shows "columnsValues gfi e record =
         (snd (loadFieldInfo gfi (typeToFieldInfo e) (TStruct n ts)),
          Return (names fi, map ((!) fs) (indexes fi)))"
  using assms
  by (simp add: columnsValues_struct getFieldValues_def getFields_struct fieldsAt_in_range)


lemma columnsValues_struct_Return:
  assumes "columnsValues gfi e record = (c, Return (columns, values))"
    and "deref record = VStruct n ts fs"
    and "fi = fieldInfoOf gfi e (TStruct n ts)"
  shows "columns = names fi \<and>
         values = map ((!) fs) (indexes fi) @ replicate (length (names fi) - length (indexes fi)) VNil"
proof -
  have gv: "getFieldValues gfi e record = (c, Return (columns, values))"
    using assms(1,2) by (simp add: columnsValues_struct)
  show ?thesis
  proof (cases "fieldsAt fs (indexes fi)")
    case (Panic m)
    with gv assms(2,3) show ?thesis
      by (simp add: getFieldValues_def getFields_struct)
  next
    case (Return vs)
    with gv assms(2,3) fieldsAt_Return [OF Return] show ?thesis
      by (auto simp: getFieldValues_def getFields_struct split: if_splits)
  qed
qed

lemma columnsValues_not_struct:
  assumes "\<not> isStruct (deref i)" and "\<not> isMap i"
  shows "\<exists>m. columnsValues gfi e i = (typeToFieldInfo e, Panic m)"
proof -
  obtain m where m: "getFields gfi e i = (typeToFieldInfo e, Panic m)"
    using getFields_not_struct [OF assms(1)] by blast
  have "columnsValues gfi e i = getFieldValues gfi e i"
    using assms(2) by (cases i) (simp_all add: isMap_def)
  with m show ?thesis
    by (simp add: getFieldValues_def)
qed

subsection \<open>Scanning rows\<close>





lemma scanRows_all:
  "list_all2 (\<lambda>row x. scanRow fi n ts isPtr row = Return (Inr x)) rows elems \<Longrightarrow>
   scanRows fi n ts isPtr rows sliceValue = Return (Inr (foldl Append sliceValue elems))"
  by (induction rows elems arbitrary: sliceValue rule: list_all2_induct) simp_all

lemma sliceElems_Append: "sliceElems (foldl Append xs elems) = sliceElems xs @ elems"
proof (induction elems arbitrary: xs)
  case Nil
  then show ?case by simp
next
  case (Cons x elems)
  then show ?case by (cases xs) simp_all
qed

lemma Select_structSlice:
  assumes "et = TStruct n ts \<and> \<not> isPtr \<or> et = TPtr (TStruct n ts) \<and> isPtr"
  shows "Select gfi e table (VRef (VSlice et xs)) where args =
         selectRows gfi e table (VRef (VSlice et xs)) where args et xs isPtr n ts"
  using assms by auto

lemma Select_not_structSlicePtr:
  "\<not> structSlicePtr records \<Longrightarrow> faultsBeforeSQL (Select gfi e table records where args)"
  by (cases records rule: structSlicePtr.cases) (simp_all add: faultsBeforeSQL_def faults_def)

lemma selectRows_scanned:
  assumes "fi = fieldInfoOf gfi e (TStruct n ts)"
    and "Query (exe e) (selectQuery table (names fi) where) args = Inr rows"
    and "list_all2 (\<lambda>row x. scanRow fi n ts isPtr row = Return (Inr x)) rows elems"
  shows "selectRows gfi e table records where args et xs isPtr n ts =
         \<lparr>events = [LogInfo (selectQuery table (names fi) where) args,
                    QueryCall (selectQuery table (names fi) where) args],
          cache = snd (loadFieldInfo gfi (typeToFieldInfo e) (TStruct n ts)),
          outcome = Return (VRef (VSlice et (foldl Append xs elems)), None)\<rparr>"
  using assms(2) scanRows_all [OF assms(3)]
  unfolding assms(1) fieldInfoOf_def
  by (simp add: selectRows_def case_prod_beta Let_def)


subsection \<open>The batch loop\<close>

lemma applyAll_first_failure:
  assumes "k < length vs"
    and "\<forall>i<k. db (tr @ map method (take i vs)) (method (vs ! i)) = Return None"
    and "db (tr @ map method (take k vs)) (method (vs ! k)) = Return (Some err)"
    and "db (tr @ map method (take (Suc k) vs)) (CallRollback tx) = Return r"
  shows "applyAll db method tx vs tr =
         (tr @ map method (take (Suc k) vs) @ [CallRollback tx], Return (Some err))"
  using assms
proof (induction vs arbitrary: k tr)
  case Nil
  then show ?case by simp
next
  case (Cons v vs)
  show ?case
  proof (cases k)
    case 0
    with Cons.prems show ?thesis by simp
  next
    case (Suc j)
    have first: "db tr (method v) = Return None"
      using Cons.prems(2) Suc by (auto dest: spec [of _ 0])
    have "j < length vs" using Cons.prems(1) Suc by simp
    moreover have "\<forall>i<j. db ((tr @ [method v]) @ map method (take i vs)) (method (vs ! i)) = Return None"
    proof (intro allI impI)
      fix i assume "i < j"
      then have "Suc i < k" using Suc by simp
      from Cons.prems(2) [rule_format, OF this] show
        "db ((tr @ [method v]) @ map method (take i vs)) (method (vs ! i)) = Return None"
        by simp
    qed
    moreover have "db ((tr @ [method v]) @ map method (take j vs)) (method (vs ! j)) = Return (Some err)"
      using Cons.prems(3) Suc by simp
    moreover have "db ((tr @ [method v]) @ map method (take (Suc j) vs)) (CallRollback tx) = Return r"
      using Cons.prems(4) Suc by simp
    ultimately have "applyAll db method tx vs (tr @ [method v]) =
         ((tr @ [method v]) @ map method (take (Suc j) vs) @ [CallRollback tx], Return (Some err))"
      by (rule Cons.IH)
    with first Suc show ?thesis by simp
  qed
qed

lemma applyAll_commit_only_after_all:
  assumes "CallCommit tx \<in> set (fst (applyAll db method tx vs tr))"
    and "CallCommit tx \<notin> set tr"
    and "\<forall>v. method v \<noteq> CallCommit tx"
  shows "fst (applyAll db method tx vs tr) = tr @ map method vs @ [CallCommit tx]
         \<and> (\<forall>i<length vs. db (tr @ map method (take i vs)) (method (vs ! i)) = Return None)"
  using assms
proof (induction vs arbitrary: tr)
  case Nil
  then show ?case by simp
next
  case (Cons v vs)
  have ok: "db tr (method v) = Return None"
  proof (rule ccontr)
    assume "db tr (method v) \<noteq> Return None"
    moreover have "CallCommit tx \<noteq> method v"
      using Cons.prems(3) by metis
    ultimately have "CallCommit tx \<notin> set (fst (applyAll db method tx (v # vs) tr))"
      using Cons.prems(2)
      by (auto split: outcome.splits option.splits)
    with Cons.prems(1) show False by simp
  qed
  have "CallCommit tx \<in> set (fst (applyAll db method tx vs (tr @ [method v])))"
    using Cons.prems(1) ok by simp
  moreover have "CallCommit tx \<notin> set (tr @ [method v])"
    using Cons.prems(2,3) by (metis Un_iff empty_iff empty_set set_ConsD set_append)
  ultimately have IH: "fst (applyAll db method tx vs (tr @ [method v]))
                       = (tr @ [method v]) @ map method vs @ [CallCommit tx]
         \<and> (\<forall>i<length vs. db ((tr @ [method v]) @ map method (take i vs)) (method (vs ! i))
                           = Return None)"
    using Cons.prems(3) by (intro Cons.IH) simp_all
  have "db (tr @ map method (take i (v # vs))) (method ((v # vs) ! i)) = Return None"
    if "i < length (v # vs)" for i
  proof (cases i)
    case 0
    with ok show ?thesis by simp
  next
    case (Suc j)
    with that IH show ?thesis by simp
  qed
  with IH ok show ?case by simp
qed

section \<open>The claims\<close>

subsection \<open>SelectOne\<close>

text \<open>
  Claim C1: a \<open>SelectOne\<close> whose query matches zero rows returns the sentinel \<open>ErrNoRows\<close>
  rather than success with the record untouched.

  The code does not do this. \<open>SelectOne\<close> issues no query at all: whatever the executor would
  answer, it returns nil and leaves the record as it was, and never returns \<open>ErrNoRows\<close>.
\<close>

theorem SelectOne_never_reports_no_rows:
  "events (SelectOne gfi e table record where args) = []
   \<and> outcome (SelectOne gfi e table record where args) = Return (record, None)
   \<and> outcome (SelectOne gfi e table record where args) \<noteq> Return (record, Some ErrNoRows)"
  by (simp add: SelectOne_def)

subsection \<open>Select: columns and scan destinations\<close>



subsection \<open>Insert\<close>

text \<open>
  Claim C3: for a typed record whose cached \<open>fieldInfo\<close> has \<open>N \<ge> 1\<close> columns, \<open>Insert\<close> builds
  \<open>insert into <table>(<c1,...,cN>) values (<placeholders>)\<close> with exactly \<open>N\<close> placeholders
  \<open>?\<close>, and passes \<open>N\<close> arguments, the \<open>i\<close>-th being the value of the \<open>i\<close>-th field in cached
  column order.
\<close>

theorem Insert_typed_record:
  assumes "deref record = VStruct n ts fs"
    and "fi = fieldInfoOf gfi e (TStruct n ts)"
    and "length (names fi) = N" and "length (indexes fi) = N" and "1 \<le> N"
    and "\<forall>idx\<in>set (indexes fi). idx < length fs"
  shows "let placeholders = Join (replicate N ''?'') '','';
             query = ''insert into '' @ table @ ''('' @ Join (names fi) '','' @ '') values (''
                     @ placeholders @ '')'';
             values = map (\<lambda>idx. fs ! idx) (indexes fi)
         in events (Insert gfi e table record) = [LogInfo query values, ExecCall query values]
            \<and> outcome (Insert gfi e table record) = Return (Exec (exe e) query values)
            \<and> count_list placeholders CHR ''?'' = N
            \<and> length values = N
            \<and> (\<forall>i<N. values ! i = fs ! (indexes fi ! i))"
proof -
  have cv: "columnsValues gfi e record =
         (snd (loadFieldInfo gfi (typeToFieldInfo e) (TStruct n ts)),
          Return (names fi, map ((!) fs) (indexes fi)))"
    using assms by (intro columnsValues_typed) simp_all
  have ne: "names fi \<noteq> []" using assms by auto
  show ?thesis
    using assms(3,4)
    by (simp add: Insert_def cv Let_def insertQuery_nonempty [OF ne] placeholders_count)
qed

theorem Insert_typed_record_witness:
  "events (Insert userFieldInfo twoRows ''users'' (userRecord 7 ''bob''))
     = [LogInfo ''insert into users(id,name) values (?,?)'' [VInt 7, VStr ''bob''],
        ExecCall ''insert into users(id,name) values (?,?)'' [VInt 7, VStr ''bob'']]
   \<and> outcome (Insert userFieldInfo twoRows ''users'' (userRecord 7 ''bob'')) = Return (Inr (0, 1))"
proof -
  let ?fi = "fieldInfoOf userFieldInfo twoRows (TStruct ''User'' [TInt, TString])"
  have fi: "?fi = \<lparr>names = [''id'', ''name''], indexes = [0, 1]\<rparr>"
    by (simp add: fieldInfoOf_def loadFieldInfo_def twoRows_def userFieldInfo_def)
  have h1: "deref (userRecord 7 ''bob'') = VStruct ''User'' [TInt, TString] [VInt 7, VStr ''bob'']"
    by (simp add: userRecord_def)
  have h3: "length (names ?fi) = 2" and h4: "length (indexes ?fi) = 2"
    by (simp_all add: fi)
  have h5: "(1::nat) \<le> 2"
    by simp
  have h6: "\<forall>idx\<in>set (indexes ?fi). idx < length [VInt 7, VStr ''bob'']"
    by (simp add: fi)
  from Insert_typed_record [OF h1 refl h3 h4 h5 h6, of "''users''"] show ?thesis
    unfolding fi by (simp add: Let_def twoRows_def numeral_2_eq_2)
qed

text \<open>
  Claim C5: an \<open>Insert\<close> whose record yields zero columns (an empty map, say) faults before
  building the statement, and never builds and executes a malformed SQL string.

  The code does not do this. With no column, \<open>buf.Truncate(buf.Len() - 1)\<close> has no trailing
  comma to remove and removes the opening parenthesis of the value list instead: the statement
  \<open>insert into <table>() values )\<close> is logged and executed, and \<open>Insert\<close> returns what \<open>Exec\<close>
  answers to it.
\<close>

theorem Insert_no_columns_executes_malformed:
  "events (Insert gfi e table (VMap []))
     = [LogInfo (''insert into '' @ table @ ''() values )'') [],
        ExecCall (''insert into '' @ table @ ''() values )'') []]
   \<and> outcome (Insert gfi e table (VMap []))
     = Return (Exec (exe e) (''insert into '' @ table @ ''() values )'') [])"
  by (simp add: Insert_def Let_def insertQuery_def TruncateLast_simps)

subsection \<open>Upsert\<close>



subsection \<open>Update\<close>

text \<open>
  Claim C7: the argument list of \<open>Update\<close> is the values of the SET clause, in cached column
  order, followed by the caller's WHERE arguments; a non-empty WHERE string is appended as it is
  after \<open>where\<close>, and with an empty one no WHERE clause is written: the update is
  unconditional, and the core adds no guard.

  The columns and values are those that the head of the operation extracts from the record; for
  a typed record they are the column names of the cached \<open>fieldInfo\<close> and the values of its
  fields, in its order.
\<close>

theorem Update_arguments_and_where:
  assumes "columnsValues gfi e record = (c, Return (columns, values))"
  shows "let set_clause =
               (if columns = [] then ''update '' @ table @ '' set''
                else ''update '' @ table @ '' set ''
                     @ Join (map (\<lambda>c. c @ '' = ?'') columns) '','');
             query = set_clause @ (if where = [] then [] else '' where '' @ where)
         in events (Update gfi e table record where args)
              = [LogInfo query (values @ args), ExecCall query (values @ args)]
            \<and> outcome (Update gfi e table record where args)
              = Return (Exec (exe e) query (values @ args))
            \<and> (\<forall>n ts fs. deref record = VStruct n ts fs \<longrightarrow>
                 columns = names (fieldInfoOf gfi e (TStruct n ts))
                 \<and> values = map (\<lambda>idx. fs ! idx) (indexes (fieldInfoOf gfi e (TStruct n ts)))
                            @ replicate (length (names (fieldInfoOf gfi e (TStruct n ts)))
                                         - length (indexes (fieldInfoOf gfi e (TStruct n ts)))) VNil)"
proof -
  have "columns = names (fieldInfoOf gfi e (TStruct n ts))
        \<and> values = map (\<lambda>idx. fs ! idx) (indexes (fieldInfoOf gfi e (TStruct n ts)))
                   @ replicate (length (names (fieldInfoOf gfi e (TStruct n ts)))
                                - length (indexes (fieldInfoOf gfi e (TStruct n ts)))) VNil"
    if "deref record = VStruct n ts fs" for n ts fs
    using columnsValues_struct_Return [OF assms that refl] by simp
  then show ?thesis
    using assms by (simp add: Let_def Update_def updateQuery_form)
qed

theorem Update_arguments_and_where_witness:
  "events (Update userFieldInfo twoRows ''users'' (userRecord 7 ''bob'') ''id = ?'' [VInt 3])
     = [LogInfo ''update users set id = ?,name = ? where id = ?'' [VInt 7, VStr ''bob'', VInt 3],
        ExecCall ''update users set id = ?,name = ? where id = ?'' [VInt 7, VStr ''bob'', VInt 3]]
   \<and> events (Update userFieldInfo twoRows ''users'' (userRecord 7 ''bob'') [] [])
     = [LogInfo ''update users set id = ?,name = ?'' [VInt 7, VStr ''bob''],
        ExecCall ''update users set id = ?,name = ?'' [VInt 7, VStr ''bob'']]
   \<and> [''id'', ''name''] = names (fieldInfoOf userFieldInfo twoRows userType)
   \<and> [VInt 7, VStr ''bob'']
     = map (\<lambda>idx. [VInt 7, VStr ''bob''] ! idx) (indexes (fieldInfoOf userFieldInfo twoRows userType))"
proof -
  have h1: "columnsValues userFieldInfo twoRows (userRecord 7 ''bob'')
            = ([userType \<mapsto> userFieldInfo userType],
               Return ([''id'', ''name''], [VInt 7, VStr ''bob'']))"
    by (simp add: userRecord_def getFieldValues_def loadFieldInfo_def twoRows_def
          userFieldInfo_def userType_def)
  have d: "deref (userRecord 7 ''bob'') = VStruct ''User'' [TInt, TString] [VInt 7, VStr ''bob'']"
    by (simp add: userRecord_def)
  have fi: "fieldInfoOf userFieldInfo twoRows userType
            = \<lparr>names = [''id'', ''name''], indexes = [0, 1]\<rparr>"
    by (simp add: fieldInfoOf_def loadFieldInfo_def twoRows_def userFieldInfo_def)
  note a = Update_arguments_and_where [OF h1, of "''users''" "''id = ?''" "[VInt 3]"]
  note b = Update_arguments_and_where [OF h1, of "''users''" "[]" "[]"]
  from a have "events (Update userFieldInfo twoRows ''users'' (userRecord 7 ''bob'') ''id = ?'' [VInt 3])
     = [LogInfo ''update users set id = ?,name = ? where id = ?'' [VInt 7, VStr ''bob'', VInt 3],
        ExecCall ''update users set id = ?,name = ? where id = ?'' [VInt 7, VStr ''bob'', VInt 3]]"
    by (simp add: Let_def)
  moreover from b have "events (Update userFieldInfo twoRows ''users'' (userRecord 7 ''bob'') [] [])
     = [LogInfo ''update users set id = ?,name = ?'' [VInt 7, VStr ''bob''],
        ExecCall ''update users set id = ?,name = ?'' [VInt 7, VStr ''bob'']]"
    by (simp add: Let_def)
  moreover from b d have "[''id'', ''name''] = names (fieldInfoOf userFieldInfo twoRows userType)
     \<and> [VInt 7, VStr ''bob'']
       = map (\<lambda>idx. [VInt 7, VStr ''bob''] ! idx) (indexes (fieldInfoOf userFieldInfo twoRows userType))
         @ replicate (length (names (fieldInfoOf userFieldInfo twoRows userType))
                      - length (indexes (fieldInfoOf userFieldInfo twoRows userType))) VNil"
    unfolding userType_def Let_def by blast
  ultimately show ?thesis
    by (simp add: fi)
qed

subsection \<open>Select: the destination collection\<close>

text \<open>
  Claim C6, as amended: a \<open>Select\<close> whose destination is a nil pointer panics before any query
  is issued. A \<open>Select\<close> whose destination is a non-nil pointer to a slice (nil or not) of
  structs or of pointers to structs, whose query succeeds and whose rows all scan, returns nil
  and leaves in the slice its former elements followed by the reconstructed elements in
  row-iteration order; with zero rows the slice is left as it was (without elements if it was nil
  or empty).
\<close>

theorem Select_appends_in_row_order:
  assumes "records = VRef (VSlice et xs)"
    and "et = TStruct n ts \<and> \<not> isPtr \<or> et = TPtr (TStruct n ts) \<and> isPtr"
    and "fi = fieldInfoOf gfi e (TStruct n ts)"
    and "Query (exe e) (selectQuery table (names fi) where) args = Inr rows"
    and "list_all2 (\<lambda>row x. scanRow fi n ts isPtr row = Return (Inr x)) rows elems"
  shows "faultsBeforeSQL (Select gfi e table (VNilPtr t) where args)
         \<and> (\<exists>ys. outcome (Select gfi e table records where args)
                   = Return (VRef (VSlice et ys), None)
                 \<and> sliceElems ys = sliceElems xs @ elems
                 \<and> (rows = [] \<longrightarrow> ys = xs))"
proof -
  have "outcome (Select gfi e table records where args)
        = Return (VRef (VSlice et (foldl Append xs elems)), None)"
    using selectRows_scanned [OF assms(3,4,5)]
    by (simp add: assms(1) Select_structSlice [OF assms(2)])
  moreover have "rows = [] \<longrightarrow> foldl Append xs elems = xs"
    using assms(5) by auto
  ultimately show ?thesis
    by (simp add: sliceElems_Append faultsBeforeSQL_def faults_def)
qed

theorem Select_appends_in_row_order_witness:
  "outcome (Select userFieldInfo twoRows ''users'' (VRef (VSlice userType None)) [] [])
     = Return (VRef (VSlice userType (Some [userRecord 1 ''ann'', userRecord 2 ''bob''])), None)
   \<and> faultsBeforeSQL (Select userFieldInfo twoRows ''users'' (VNilPtr (TSlice userType)) [] [])"
proof -
  let ?fi = "fieldInfoOf userFieldInfo twoRows (TStruct ''User'' [TInt, TString])"
  let ?rows = "[[VInt 1, VStr ''ann''], [VInt 2, VStr ''bob'']]"
  have fi: "?fi = \<lparr>names = [''id'', ''name''], indexes = [0, 1]\<rparr>"
    by (simp add: fieldInfoOf_def loadFieldInfo_def twoRows_def userFieldInfo_def)
  have h1: "VRef (VSlice userType None) = VRef (VSlice userType None)"
    by simp
  have h2: "userType = TStruct ''User'' [TInt, TString] \<and> \<not> False
            \<or> userType = TPtr (TStruct ''User'' [TInt, TString]) \<and> False"
    by (simp add: userType_def)
  have h4: "Query (exe twoRows) (selectQuery ''users'' (names ?fi) []) [] = Inr ?rows"
    by (simp add: twoRows_def)
  have h5: "list_all2 (\<lambda>row x. scanRow ?fi ''User'' [TInt, TString] False row = Return (Inr x))
              ?rows [userRecord 1 ''ann'', userRecord 2 ''bob'']"
    unfolding fi by (simp add: scanRow_def Scan_def userRecord_def)
  from Select_appends_in_row_order [OF h1 h2 refl h4 h5, of "TSlice userType"]
  obtain ys where
    out: "outcome (Select userFieldInfo twoRows ''users'' (VRef (VSlice userType None)) [] [])
          = Return (VRef (VSlice userType ys), None)"
    and ys: "sliceElems ys = sliceElems None @ [userRecord 1 ''ann'', userRecord 2 ''bob'']"
    and nilptr: "faultsBeforeSQL (Select userFieldInfo twoRows ''users'' (VNilPtr (TSlice userType)) [] [])"
    by blast
  from ys have "ys = Some [userRecord 1 ''ann'', userRecord 2 ''bob'']"
    by (cases ys) simp_all
  with out nilptr show ?thesis
    by simp
qed

text \<open>
  The counterexample to claim C6 as it stands, which asks that a \<open>Select\<close> on a nil destination
  allocates a new collection before appending: on a nil pointer to a slice of \<open>User\<close> the
  guard \<open>v.IsNil() && !v.CanSet()\<close> panics instead, before the query is issued.
\<close>

theorem Select_nil_destination_counterexample:
  "outcome (Select userFieldInfo twoRows ''users'' (VNilPtr (TSlice userType)) [] [])
     = Panic ''cannot be set value''
   \<and> events (Select userFieldInfo twoRows ''users'' (VNilPtr (TSlice userType)) [] []) = []"
  by simp

subsection \<open>Contract violations\<close>

text \<open>
  Claim C9: an input that is not a struct after the non-nil pointers are followed, a nil or
  invalid value, and a \<open>Select\<close> destination that is not a pointer to a slice, make the
  operation panic at once, before any SQL is generated; it never goes on with an empty mapping.

  The type inspector \<open>getFields\<close> panics on every value that is not a struct after
  dereferencing (the nil interface and the nil pointers among them). So do \<open>Insert\<close>, \<open>Update\<close>
  and \<open>Upsert\<close>, which hand every record other than a \<open>map[string]interface{}\<close> to the
  inspector, and they have then logged and executed nothing. \<open>Select\<close> panics, with nothing
  logged or queried, on every destination that is not a non-nil pointer to a slice of structs or
  of pointers to structs.
\<close>

theorem contract_violations_fault:
  "(\<not> isStruct (deref record) \<longrightarrow>
      faults (snd (getFields gfi e record))
      \<and> (\<not> isMap record \<longrightarrow>
           faultsBeforeSQL (Insert gfi e table record)
           \<and> faultsBeforeSQL (Update gfi e table record where args)
           \<and> faultsBeforeSQL (Upsert gfi e table record)))
   \<and> (\<not> structSlicePtr records \<longrightarrow> faultsBeforeSQL (Select gfi e table records where args))"
proof (intro conjI impI)
  assume ns: "\<not> isStruct (deref record)"
  then show "faults (snd (getFields gfi e record))"
    using getFields_not_struct [OF ns, of gfi e] by (auto simp: faults_def)
  assume nm: "\<not> isMap record"
  obtain m where m: "columnsValues gfi e record = (typeToFieldInfo e, Panic m)"
    using columnsValues_not_struct [OF ns nm] by blast
  show "faultsBeforeSQL (Insert gfi e table record)"
    by (simp add: Insert_def m faultsBeforeSQL_def faults_def)
  show "faultsBeforeSQL (Update gfi e table record where args)"
    by (simp add: Update_def m faultsBeforeSQL_def faults_def)
  show "faultsBeforeSQL (Upsert gfi e table record)"
    by (simp add: Upsert_def m faultsBeforeSQL_def faults_def)
next
  assume "\<not> structSlicePtr records"
  then show "faultsBeforeSQL (Select gfi e table records where args)"
    by (rule Select_not_structSlicePtr)
qed

theorem contract_violations_fault_witness:
  "faults (snd (getFields userFieldInfo twoRows (VRef (VInt 5))))
   \<and> faultsBeforeSQL (Insert userFieldInfo twoRows ''users'' (VRef (VInt 5)))
   \<and> faultsBeforeSQL (Update userFieldInfo twoRows ''users'' (VRef (VInt 5)) ''id = ?'' [VInt 3])
   \<and> faultsBeforeSQL (Upsert userFieldInfo twoRows ''users'' (VRef (VInt 5)))
   \<and> faultsBeforeSQL (Select userFieldInfo twoRows ''users'' (userRecord 7 ''bob'') ''id = ?'' [VInt 3])"
proof -
  have h1: "\<not> isStruct (deref (VRef (VInt 5)))"
    by (simp add: isStruct_def)
  have h2: "\<not> isMap (VRef (VInt 5))"
    by (simp add: isMap_def)
  have h3: "\<not> structSlicePtr (userRecord 7 ''bob'')"
    by (simp add: userRecord_def)
  from contract_violations_fault [of "VRef (VInt 5)" userFieldInfo twoRows "''users''"
      "''id = ?''" "[VInt 3]" "userRecord 7 ''bob''"] h1 h2 h3
  show ?thesis
    by blast
qed

subsection \<open>Batch operations\<close>

text \<open>
  Claim C8: \<open>MultiInsert\<close>, \<open>MultiUpdate\<close> and \<open>MultiSave\<close> apply the records one after the
  other inside one transaction, and at the first record that fails the whole transaction is
  rolled back before that error is returned: all or nothing, never a partial commit.

  In a transaction that \<open>Begin\<close> opened, when the records before position \<open>k\<close> succeed and the
  one at \<open>k\<close> fails with \<open>err\<close>, the calls made are \<open>Begin\<close>, the method on the records up to
  \<open>k\<close> in order, and \<open>Rollback\<close>, and the result is \<open>err\<close>. Whatever the database
  answers, \<open>Commit\<close> is called only after the method has been applied to every record, in
  order, with success.
\<close>

theorem batch_all_or_nothing:
  assumes "(method, Multi) \<in> {(CallInsert, MultiInsert), (CallUpdate, MultiUpdate), (CallSave, MultiSave)}"
    and "db [] CallBegin = Return None"
  shows "(k < length values
          \<and> (\<forall>i<k. db (CallBegin # map (method TxPtr) (take i values)) (method TxPtr (values ! i))
                     = Return None)
          \<and> db (CallBegin # map (method TxPtr) (take k values)) (method TxPtr (values ! k))
              = Return (Some err)
          \<and> db (CallBegin # map (method TxPtr) (take (Suc k) values)) (CallRollback TxPtr)
              = Return r
          \<longrightarrow> Multi db values =
                (CallBegin # map (method TxPtr) (take (Suc k) values) @ [CallRollback TxPtr],
                 Return (Some err)))
         \<and> (CallCommit TxPtr \<in> set (fst (Multi db values))
              \<longrightarrow> fst (Multi db values) = CallBegin # map (method TxPtr) values @ [CallCommit TxPtr]
                  \<and> (\<forall>i<length values.
                        db (CallBegin # map (method TxPtr) (take i values))
                           (method TxPtr (values ! i)) = Return None))"
proof (intro conjI impI)
  have multi: "Multi db values = applyAll db (method TxPtr) TxPtr values [CallBegin]"
    using assms by (auto simp: MultiInsert_def MultiUpdate_def MultiSave_def Begin_def)
  have nc: "\<forall>v. method TxPtr v \<noteq> CallCommit TxPtr"
    using assms(1) by auto
  {
    assume "k < length values
          \<and> (\<forall>i<k. db (CallBegin # map (method TxPtr) (take i values)) (method TxPtr (values ! i))
                     = Return None)
          \<and> db (CallBegin # map (method TxPtr) (take k values)) (method TxPtr (values ! k))
              = Return (Some err)
          \<and> db (CallBegin # map (method TxPtr) (take (Suc k) values)) (CallRollback TxPtr)
              = Return r"
    then have "applyAll db (method TxPtr) TxPtr values [CallBegin] =
         ([CallBegin] @ map (method TxPtr) (take (Suc k) values) @ [CallRollback TxPtr],
          Return (Some err))"
      by (intro applyAll_first_failure) simp_all
    with multi show "Multi db values =
                (CallBegin # map (method TxPtr) (take (Suc k) values) @ [CallRollback TxPtr],
                 Return (Some err))"
      by simp
  }
  assume "CallCommit TxPtr \<in> set (fst (Multi db values))"
  then have "CallCommit TxPtr \<in> set (fst (applyAll db (method TxPtr) TxPtr values [CallBegin]))"
    by (simp add: multi)
  from applyAll_commit_only_after_all [OF this _ nc]
  have all: "fst (applyAll db (method TxPtr) TxPtr values [CallBegin])
             = [CallBegin] @ map (method TxPtr) values @ [CallCommit TxPtr]
         \<and> (\<forall>i<length values. db ([CallBegin] @ map (method TxPtr) (take i values))
                                 (method TxPtr (values ! i)) = Return None)"
    by simp
  then show "fst (Multi db values) = CallBegin # map (method TxPtr) values @ [CallCommit TxPtr]"
    by (simp add: multi)
  from all show "\<forall>i<length values.
                        db (CallBegin # map (method TxPtr) (take i values))
                           (method TxPtr (values ! i)) = Return None"
    by simp
qed

theorem batch_all_or_nothing_witness:
  "MultiInsert secondFails [userRecord 1 ''ann'', userRecord 2 ''bob'', userRecord 3 ''cy'']
     = ([CallBegin, CallInsert TxPtr (userRecord 1 ''ann''), CallInsert TxPtr (userRecord 2 ''bob''),
         CallRollback TxPtr],
        Return (Some ''duplicate key''))
   \<and> CallCommit TxPtr \<in> set (fst (MultiSave allSucceed [userRecord 1 ''ann'', userRecord 2 ''bob'']))
   \<and> fst (MultiSave allSucceed [userRecord 1 ''ann'', userRecord 2 ''bob''])
     = [CallBegin, CallSave TxPtr (userRecord 1 ''ann''), CallSave TxPtr (userRecord 2 ''bob''),
        CallCommit TxPtr]"
proof -
  let ?vs = "[userRecord 1 ''ann'', userRecord 2 ''bob'', userRecord 3 ''cy'']"
  let ?ws = "[userRecord 1 ''ann'', userRecord 2 ''bob'']"
  have h1: "(CallInsert, MultiInsert)
            \<in> {(CallInsert, MultiInsert), (CallUpdate, MultiUpdate), (CallSave, MultiSave)}"
    by simp
  have h2: "secondFails [] CallBegin = Return None"
    by (simp add: secondFails_def)
  have h3: "1 < length ?vs
          \<and> (\<forall>i<1. secondFails (CallBegin # map (CallInsert TxPtr) (take i ?vs))
                      (CallInsert TxPtr (?vs ! i)) = Return None)
          \<and> secondFails (CallBegin # map (CallInsert TxPtr) (take 1 ?vs))
              (CallInsert TxPtr (?vs ! 1)) = Return (Some ''duplicate key'')
          \<and> secondFails (CallBegin # map (CallInsert TxPtr) (take (Suc 1) ?vs))
              (CallRollback TxPtr) = Return None"
    by (simp add: secondFails_def)
  have g1: "(CallSave, MultiSave)
            \<in> {(CallInsert, MultiInsert), (CallUpdate, MultiUpdate), (CallSave, MultiSave)}"
    by simp
  have g2: "allSucceed [] CallBegin = Return None"
    by (simp add: allSucceed_def)
  have g3: "CallCommit TxPtr \<in> set (fst (MultiSave allSucceed ?ws))"
    by (simp add: MultiSave_def Begin_def allSucceed_def)
  from batch_all_or_nothing [of CallInsert MultiInsert secondFails 1 ?vs "''duplicate key''" None,
      OF h1 h2] h3
  have a: "MultiInsert secondFails ?vs
     = ([CallBegin, CallInsert TxPtr (userRecord 1 ''ann''), CallInsert TxPtr (userRecord 2 ''bob''),
         CallRollback TxPtr],
        Return (Some ''duplicate key''))"
    by simp
  from batch_all_or_nothing [of CallSave MultiSave allSucceed _ ?ws, OF g1 g2] g3
  have b: "fst (MultiSave allSucceed ?ws)
     = [CallBegin, CallSave TxPtr (userRecord 1 ''ann''), CallSave TxPtr (userRecord 2 ''bob''),
        CallCommit TxPtr]"
    by simp
  from a b g3 show ?thesis
    by simp
qed

text \<open>
  Claim C10: in \<open>MultiInsert\<close>, \<open>MultiUpdate\<close> and \<open>MultiSave\<close> the error of \<open>Begin\<close> is
  dropped: when \<open>Begin\<close> fails and there is at least one value, the operation goes on to call a
  method on the nil transaction handle, a fault, instead of returning the error of \<open>Begin\<close>.

  The first call after the failed \<open>Begin\<close> is the method on the nil handle with the first value;
  where that call panics, the panic is the outcome of the batch operation, and the error of
  \<open>Begin\<close> is not.
\<close>

theorem Begin_error_discarded:
  assumes "db [] CallBegin = Return (Some err)"
    and "db [CallBegin] (CallInsert TxNil v) = Panic m"
    and "db [CallBegin] (CallUpdate TxNil v) = Panic m"
    and "db [CallBegin] (CallSave TxNil v) = Panic m"
  shows "MultiInsert db (v # values) = ([CallBegin, CallInsert TxNil v], Panic m)
         \<and> MultiUpdate db (v # values) = ([CallBegin, CallUpdate TxNil v], Panic m)
         \<and> MultiSave db (v # values) = ([CallBegin, CallSave TxNil v], Panic m)
         \<and> snd (MultiInsert db (v # values)) \<noteq> Return (Some err)
         \<and> snd (MultiUpdate db (v # values)) \<noteq> Return (Some err)
         \<and> snd (MultiSave db (v # values)) \<noteq> Return (Some err)"
  using assms by (simp add: MultiInsert_def MultiUpdate_def MultiSave_def Begin_def)

theorem Begin_error_discarded_witness:
  "MultiInsert beginFails [userRecord 1 ''ann'', userRecord 2 ''bob'']
     = ([CallBegin, CallInsert TxNil (userRecord 1 ''ann'')], Panic ''nil pointer dereference'')
   \<and> MultiUpdate beginFails [userRecord 1 ''ann'', userRecord 2 ''bob'']
     = ([CallBegin, CallUpdate TxNil (userRecord 1 ''ann'')], Panic ''nil pointer dereference'')
   \<and> MultiSave beginFails [userRecord 1 ''ann'', userRecord 2 ''bob'']
     = ([CallBegin, CallSave TxNil (userRecord 1 ''ann'')], Panic ''nil pointer dereference'')"
proof -
  have h1: "beginFails [] CallBegin = Return (Some ''connection refused'')"
    by (simp add: beginFails_def)
  have h2: "beginFails [CallBegin] (CallInsert TxNil (userRecord 1 ''ann''))
            = Panic ''nil pointer dereference''"
    and h3: "beginFails [CallBegin] (CallUpdate TxNil (userRecord 1 ''ann''))
            = Panic ''nil pointer dereference''"
    and h4: "beginFails [CallBegin] (CallSave TxNil (userRecord 1 ''ann''))
            = Panic ''nil pointer dereference''"
    by (simp_all add: beginFails_def)
  from Begin_error_discarded [OF h1 h2 h3 h4, of "[userRecord 2 ''bob'']"] show ?thesis
    by simp
qed

end
